theory Spec2Isabelle
  imports Main
begin

section \<open>Python strings and integers\<close>

text \<open>
  The server is Python: integers are unbounded (\<open>int\<close>), \<open>len\<close> returns an integer,
  and a \<open>str\<close> is a sequence of characters. A character is modelled by \<open>char\<close>, so
  the strings covered are those over the code points below 256; \<open>length\<close> counts
  characters, as \<open>len\<close> does.
\<close>

definition nl :: string where
  "nl = [CHR 0x0A]"

text \<open>\<open>str(n)\<close> for an integer: decimal digits, with a leading minus sign below zero.\<close>

fun str_nat :: "nat \<Rightarrow> string" where
  "str_nat n =
     (if n < 10 then [''0123456789'' ! n]
      else str_nat (n div 10) @ [''0123456789'' ! (n mod 10)])"

declare str_nat.simps [simp del]

definition str_int :: "int \<Rightarrow> string" where
  "str_int i = (if i < 0 then ''-'' @ str_nat (nat (- i)) else str_nat (nat i))"

text \<open>
  \<open>xs[start:stop]\<close>: a negative bound counts from the end, every bound is clipped to
  \<open>0 .. len(xs)\<close>, and the slice is empty when the bounds cross.
\<close>

definition py_slice :: "'a list \<Rightarrow> int \<Rightarrow> int \<Rightarrow> 'a list" where
  "py_slice xs start stop =
     (let n = int (length xs);
          adj = (\<lambda>i. if i < 0 then max 0 (i + n) else min i n);
          a = adj start;
          b = adj stop
      in take (nat (b - a)) (drop (nat a) xs))"

text \<open>\<open>needle in hay\<close> on strings, and \<open>s.startswith(p)\<close>.\<close>

definition startswith :: "string \<Rightarrow> string \<Rightarrow> bool" where
  "startswith s p = (take (length p) s = p)"

fun contains :: "string \<Rightarrow> string \<Rightarrow> bool" where
  "contains needle [] = (needle = [])"
| "contains needle (c # cs) = (startswith (c # cs) needle \<or> contains needle cs)"

section \<open>Result windowing (\<open>call_tool\<close>, the block after the fetch)\<close>

definition no_more_content :: string where
  "no_more_content = ''<error>No more content available.</error>''"

definition truncation_hint :: "int \<Rightarrow> string" where
  "truncation_hint next_start =
     nl @ nl @ ''<error>Content truncated. Call the fetch tool with a start_index of ''
       @ str_int next_start @ '' to get more content.</error>''"

text \<open>
  The block of \<open>call_tool\<close> that turns the fetched \<open>content\<close> into the returned one.
  The second component is the local \<open>next_start\<close>, which the source binds only in the
  branch that appends the hint.
\<close>

definition window :: "string \<Rightarrow> int \<Rightarrow> int \<Rightarrow> string \<times> int option" where
  "window content start_index max_length =
     (let original_length = int (length content) in
      if start_index \<ge> original_length then (no_more_content, None)
      else
        let truncated_content = py_slice content start_index (start_index + max_length) in
        if truncated_content = [] then (no_more_content, None)
        else
          let actual_content_length = int (length truncated_content);
              remaining_content = original_length - (start_index + actual_content_length)
          in
            if actual_content_length = max_length \<and> remaining_content > 0
            then
              let next_start = start_index + actual_content_length
              in (truncated_content @ truncation_hint next_start, Some next_start)
            else (truncated_content, None))"

section \<open>Line handling of the robots text\<close>

text \<open>
  \<open>str.splitlines()\<close>: the line boundaries among the code points below 256 are
  LF, VT, FF, CR, FS, GS, RS and NEL; CR LF is one boundary; a text that ends with a
  boundary has no empty last line, and the empty text has no line at all.
\<close>

definition is_linebreak :: "char \<Rightarrow> bool" where
  "is_linebreak c \<longleftrightarrow>
     c \<in> {CHR 0x0A, CHR 0x0B, CHR 0x0C, CHR 0x0D, CHR 0x1C, CHR 0x1D, CHR 0x1E, CHR 0x85}"

function splitlines :: "string \<Rightarrow> string list" where
  "splitlines s =
     (if s = [] then []
      else
        let line = takeWhile (\<lambda>c. \<not> is_linebreak c) s;
            rest = dropWhile (\<lambda>c. \<not> is_linebreak c) s
        in case rest of
             [] \<Rightarrow> [line]
           | c # cs \<Rightarrow>
               line # splitlines
                 (case cs of
                    [] \<Rightarrow> cs
                  | d # ds \<Rightarrow> if c = CHR 0x0D \<and> d = CHR 0x0A then ds else cs))"
  by pat_completeness auto

termination
proof (relation "measure length", goal_cases)
  case 1
  show ?case by simp
next
  case (2 s line rest c cs)
  have "length (dropWhile (\<lambda>c. \<not> is_linebreak c) s) \<le> length s"
    by (rule length_dropWhile_le)
  moreover from 2 have "length (dropWhile (\<lambda>c. \<not> is_linebreak c) s) = Suc (length cs)"
    by (metis length_Cons)
  ultimately have "length cs < length s" by linarith
  moreover have "length (case cs of [] \<Rightarrow> cs
                   | d # ds \<Rightarrow> if c = CHR 0x0D \<and> d = CHR 0x0A then ds else cs) \<le> length cs"
    by (simp split: list.split)
  ultimately show ?case by simp
qed

declare splitlines.simps [simp del]

text \<open>\<open>str.isspace\<close> on one character below 256, and \<open>str.strip()\<close>.\<close>

definition py_isspace :: "char \<Rightarrow> bool" where
  "py_isspace c \<longleftrightarrow>
     c \<in> {CHR 0x09, CHR 0x0A, CHR 0x0B, CHR 0x0C, CHR 0x0D,
          CHR 0x1C, CHR 0x1D, CHR 0x1E, CHR 0x1F, CHR 0x20, CHR 0x85, CHR 0xA0}"

definition strip :: "string \<Rightarrow> string" where
  "strip s = rev (dropWhile py_isspace (rev (dropWhile py_isspace s)))"

text \<open>\<open>sep.join(xs)\<close>.\<close>

fun join :: "string \<Rightarrow> string list \<Rightarrow> string" where
  "join sep [] = []"
| "join sep [x] = x"
| "join sep (x # y # ys) = x @ sep @ join sep (y # ys)"

section \<open>The libraries the server calls\<close>

text \<open>
  A GET request as passed to \<open>AsyncClient.get\<close>. \<open>timeout = None\<close> means that the call
  site passes no \<open>timeout\<close> argument, so that the client's own default applies.
\<close>

record request =
  req_url :: string
  follow_redirects :: bool
  req_headers :: "(string \<times> string) list"
  timeout :: "nat option"

text \<open>The response fields the server reads; header names are keyed in lower case.\<close>

record response =
  status_code :: int
  resp_headers :: "string \<rightharpoonup> string"
  resp_text :: string

text \<open>An \<open>httpx.HTTPError\<close>, with the text that \<open>repr\<close> gives for it.\<close>

datatype http_error = HTTPError string

fun repr_error :: "http_error \<Rightarrow> string" where
  "repr_error (HTTPError r) = r"

text \<open>The named tuple returned by \<open>urllib.parse.urlparse\<close>.\<close>

record parse_result =
  scheme :: string
  netloc :: string
  path :: string
  params :: string
  query :: string
  fragment :: string

text \<open>
  The \<open>arguments\<close> dictionary of a tool call, reduced to the four keys that \<open>Fetch\<close>
  declares; \<open>None\<close> is a missing key.
\<close>

record arguments =
  arg_url :: "string option"
  arg_max_length :: "int option"
  arg_start_index :: "int option"
  arg_raw :: "bool option"

text \<open>
  What lies outside the repository is a parameter of the model:
  \<^item> \<open>http_get\<close>: the network, answering a request with a response or an \<open>HTTPError\<close>;
  \<^item> \<open>urlparse\<close>: \<open>urllib.parse.urlparse\<close>;
  \<^item> \<open>can_fetch\<close>: \<open>Protego.parse(text).can_fetch(url, user_agent)\<close>;
  \<^item> \<open>readable_content\<close>: the \<open>"content"\<close> entry of readabilipy's
    \<open>simple_json_from_html_string(html, use_readability=True)\<close>, \<open>None\<close> as in Python;
  \<^item> \<open>markdownify\<close>: \<open>markdownify.markdownify(html, heading_style=ATX)\<close>;
  \<^item> \<open>any_url\<close>: pydantic's \<open>AnyUrl\<close>, giving \<open>str\<close> of the validated URL, or \<open>None\<close>
    when the text is rejected;
  \<^item> \<open>validation_text\<close>: \<open>str\<close> of pydantic's validation error for the given arguments.
\<close>

record env =
  http_get :: "request \<Rightarrow> http_error + response"
  urlparse :: "string \<Rightarrow> parse_result"
  can_fetch :: "string \<Rightarrow> string \<Rightarrow> string \<Rightarrow> bool"
  readable_content :: "string \<Rightarrow> string option"
  markdownify :: "string \<Rightarrow> string"
  any_url :: "string \<Rightarrow> string option"
  validation_text :: "arguments \<Rightarrow> string"

text \<open>\<open>urllib.parse.urlunsplit\<close> and \<open>urlunparse\<close>, as the standard library defines them.\<close>

definition uses_netloc :: "string list" where
  "uses_netloc =
     ['''', ''ftp'', ''http'', ''gopher'', ''nntp'', ''telnet'',
      ''imap'', ''wais'', ''file'', ''mms'', ''https'', ''shttp'',
      ''snews'', ''prospero'', ''rtsp'', ''rtsps'', ''rtspu'', ''rsync'',
      ''svn'', ''svn+ssh'', ''sftp'', ''nfs'', ''git'', ''git+ssh'',
      ''ws'', ''wss'', ''itms-services'']"

definition urlunsplit :: "string \<Rightarrow> string \<Rightarrow> string \<Rightarrow> string \<Rightarrow> string \<Rightarrow> string" where
  "urlunsplit sch loc url0 qry frag =
     (let url1 =
            (if loc \<noteq> [] \<or> (sch \<noteq> [] \<and> sch \<in> set uses_netloc \<and> take 2 url0 \<noteq> ''//'')
             then ''//'' @ loc @ (if url0 \<noteq> [] \<and> take 1 url0 \<noteq> ''/'' then ''/'' @ url0 else url0)
             else url0);
          url2 = (if sch \<noteq> [] then sch @ '':'' @ url1 else url1);
          url3 = (if qry \<noteq> [] then url2 @ ''?'' @ qry else url2)
      in if frag \<noteq> [] then url3 @ ''#'' @ frag else url3)"

definition urlunparse :: "string \<Rightarrow> string \<Rightarrow> string \<Rightarrow> string \<Rightarrow> string \<Rightarrow> string \<Rightarrow> string" where
  "urlunparse sch loc url0 prm qry frag =
     urlunsplit sch loc (if prm \<noteq> [] then url0 @ '';'' @ prm else url0) qry frag"

section \<open>Errors raised to the caller\<close>

datatype error_code = INVALID_PARAMS | INTERNAL_ERROR

record ErrorData =
  code :: error_code
  message :: string

datatype McpError = McpError ErrorData

text \<open>\<open>str(e)\<close> of a \<open>McpError\<close> is the message of its error data.\<close>

fun str_McpError :: "McpError \<Rightarrow> string" where
  "str_McpError (McpError d) = message d"

section \<open>\<open>extract_content_from_html\<close>\<close>

definition extract_content_from_html :: "env \<Rightarrow> string \<Rightarrow> string" where
  "extract_content_from_html e html =
     (case readable_content e html of
        None \<Rightarrow> ''<error>Page failed to be simplified from HTML</error>''
      | Some c \<Rightarrow>
          if c = [] then ''<error>Page failed to be simplified from HTML</error>''
          else markdownify e c)"

section \<open>\<open>get_robots_txt_url\<close>\<close>

definition get_robots_txt_url :: "env \<Rightarrow> string \<Rightarrow> string" where
  "get_robots_txt_url e url =
     (let parsed = urlparse e url
      in urlunparse (scheme parsed) (netloc parsed) ''/robots.txt'' '''' '''' '''')"

section \<open>\<open>check_may_autonomously_fetch_url\<close>\<close>

definition processed_robot_txt :: "string \<Rightarrow> string" where
  "processed_robot_txt robot_txt =
     join nl (filter (\<lambda>line. \<not> startswith (strip line) ''#'') (splitlines robot_txt))"

definition robots_status_message :: "string \<Rightarrow> int \<Rightarrow> string" where
  "robots_status_message robot_txt_url status =
     ''When fetching robots.txt ('' @ robot_txt_url @ ''), received status ''
       @ str_int status
       @ '' so assuming that autonomous fetching is not allowed, the user can try manually fetching by using the fetch prompt''"

definition robots_denied_message :: "string \<Rightarrow> string \<Rightarrow> string \<Rightarrow> string \<Rightarrow> string" where
  "robots_denied_message robot_txt_url user_agent url robot_txt =
     ''The sites robots.txt ('' @ robot_txt_url
       @ ''), specifies that autonomous fetching of this page is not allowed, ''
       @ ''<useragent>'' @ user_agent @ ''</useragent>'' @ nl
       @ ''<url>'' @ url @ ''</url>''
       @ ''<robots>'' @ nl @ robot_txt @ nl @ ''</robots>'' @ nl
       @ ''The assistant must let the user know that it failed to view the page. The assistant may provide further guidance based on the above information.'' @ nl
       @ ''The assistant can tell the user that they can try manually fetching the page by using the fetch prompt within their UI.''"

text \<open>
  The first component lists the requests sent, the second is the outcome: \<open>Inl\<close> the
  \<open>McpError\<close> raised, \<open>Inr ()\<close> a plain return.
\<close>

definition check_may_autonomously_fetch_url ::
    "env \<Rightarrow> string \<Rightarrow> string \<Rightarrow> request list \<times> (McpError + unit)" where
  "check_may_autonomously_fetch_url e url user_agent =
     (let robot_txt_url = get_robots_txt_url e url;
          req = \<lparr>req_url = robot_txt_url, follow_redirects = True,
                 req_headers = [(''User-Agent'', user_agent)], timeout = None\<rparr>
      in ([req],
          case http_get e req of
            Inl err \<Rightarrow>
              Inl (McpError \<lparr>code = INTERNAL_ERROR,
                    message = ''Failed to fetch robots.txt '' @ robot_txt_url
                                @ '' due to a connection issue''\<rparr>)
          | Inr response \<Rightarrow>
              if status_code response = 401 \<or> status_code response = 403
              then Inl (McpError \<lparr>code = INTERNAL_ERROR,
                         message = robots_status_message robot_txt_url (status_code response)\<rparr>)
              else if 400 \<le> status_code response \<and> status_code response < 500
              then Inr ()
              else
                let robot_txt = resp_text response;
                    processed = processed_robot_txt robot_txt
                in if \<not> can_fetch e processed url user_agent
                   then Inl (McpError \<lparr>code = INTERNAL_ERROR,
                              message = robots_denied_message robot_txt_url user_agent url robot_txt\<rparr>)
                   else Inr ()))"

section \<open>\<open>fetch_url\<close>\<close>

definition content_type_of :: "response \<Rightarrow> string" where
  "content_type_of response =
     (case resp_headers response ''content-type'' of None \<Rightarrow> '''' | Some v \<Rightarrow> v)"

definition is_page_html :: "string \<Rightarrow> string \<Rightarrow> bool" where
  "is_page_html page_raw content_type \<longleftrightarrow>
     contains ''<html'' (py_slice page_raw 0 100)
     \<or> contains ''text/html'' content_type
     \<or> content_type = []"

definition fetch_url ::
    "env \<Rightarrow> string \<Rightarrow> string \<Rightarrow> bool \<Rightarrow> request list \<times> (McpError + string \<times> string)" where
  "fetch_url e url user_agent force_raw =
     (let req = \<lparr>req_url = url, follow_redirects = True,
                 req_headers = [(''User-Agent'', user_agent)], timeout = Some 30\<rparr>
      in ([req],
          case http_get e req of
            Inl err \<Rightarrow>
              Inl (McpError \<lparr>code = INTERNAL_ERROR,
                    message = ''Failed to fetch '' @ url @ '': '' @ repr_error err\<rparr>)
          | Inr response \<Rightarrow>
              if status_code response \<ge> 400
              then Inl (McpError \<lparr>code = INTERNAL_ERROR,
                         message = ''Failed to fetch '' @ url @ '' - status code ''
                                     @ str_int (status_code response)\<rparr>)
              else
                let page_raw = resp_text response;
                    content_type = content_type_of response
                in if is_page_html page_raw content_type \<and> \<not> force_raw
                   then Inr (extract_content_from_html e page_raw, '''')
                   else Inr (page_raw,
                             ''Content type '' @ content_type
                               @ '' cannot be simplified to markdown, but here is the raw content:''
                               @ nl)))"

section \<open>The \<open>Fetch\<close> parameters\<close>

record Fetch =
  url :: string
  max_length :: int
  start_index :: int
  raw :: bool

text \<open>
  \<open>Fetch(**arguments)\<close>: \<open>url\<close> is required and must be an \<open>AnyUrl\<close>; \<open>max_length\<close>
  defaults to 5000 with \<open>gt=0, lt=1000000\<close>; \<open>start_index\<close> defaults to 0 with \<open>ge=0\<close>;
  \<open>raw\<close> defaults to \<open>False\<close>. \<open>Inl\<close> is the \<open>ValueError\<close> raised, with its text.
\<close>

definition Fetch_init :: "env \<Rightarrow> arguments \<Rightarrow> string + Fetch" where
  "Fetch_init e a =
     (let m = (case arg_max_length a of None \<Rightarrow> 5000 | Some v \<Rightarrow> v);
          s = (case arg_start_index a of None \<Rightarrow> 0 | Some v \<Rightarrow> v);
          r = (case arg_raw a of None \<Rightarrow> False | Some v \<Rightarrow> v)
      in case arg_url a of
           None \<Rightarrow> Inl (validation_text e a)
         | Some u \<Rightarrow>
             (case any_url e u of
                None \<Rightarrow> Inl (validation_text e a)
              | Some u' \<Rightarrow>
                  if 0 < m \<and> m < 1000000 \<and> 0 \<le> s
                  then Inr \<lparr>url = u', max_length = m, start_index = s, raw = r\<rparr>
                  else Inl (validation_text e a)))"

section \<open>\<open>serve\<close>: the configuration and the two handlers\<close>

definition DEFAULT_USER_AGENT_AUTONOMOUS :: string where
  "DEFAULT_USER_AGENT_AUTONOMOUS =
     ''ModelContextProtocol/1.0 (Autonomous; +https://github.com/modelcontextprotocol/servers)''"

definition DEFAULT_USER_AGENT_MANUAL :: string where
  "DEFAULT_USER_AGENT_MANUAL =
     ''ModelContextProtocol/1.0 (User-Specified; +https://github.com/modelcontextprotocol/servers)''"

text \<open>The parameters of \<open>serve\<close> that the handlers read.\<close>

record config =
  custom_user_agent :: "string option"
  ignore_robots_txt :: bool

text \<open>\<open>x or d\<close> for an optional string: \<open>None\<close> and the empty string are both false.\<close>

definition py_or :: "string option \<Rightarrow> string \<Rightarrow> string" where
  "py_or x d = (case x of None \<Rightarrow> d | Some v \<Rightarrow> if v = [] then d else v)"

definition user_agent_autonomous :: "config \<Rightarrow> string" where
  "user_agent_autonomous cfg = py_or (custom_user_agent cfg) DEFAULT_USER_AGENT_AUTONOMOUS"

definition user_agent_manual :: "config \<Rightarrow> string" where
  "user_agent_manual cfg = py_or (custom_user_agent cfg) DEFAULT_USER_AGENT_MANUAL"

record TextContent =
  tc_type :: string
  tc_text :: string

text \<open>
  The tool handler. The tool name is not inspected. The first component lists the
  requests sent, in order; the second is the \<open>McpError\<close> raised or the list returned.
\<close>

definition call_tool ::
    "env \<Rightarrow> config \<Rightarrow> string \<Rightarrow> arguments \<Rightarrow> request list \<times> (McpError + TextContent list)" where
  "call_tool e cfg name a =
     (case Fetch_init e a of
        Inl err \<Rightarrow> ([], Inl (McpError \<lparr>code = INVALID_PARAMS, message = err\<rparr>))
      | Inr args \<Rightarrow>
          let u = url args in
          if u = [] then ([], Inl (McpError \<lparr>code = INVALID_PARAMS, message = ''URL is required''\<rparr>))
          else
            let (reqs1, checked) =
                  (if \<not> ignore_robots_txt cfg
                   then check_may_autonomously_fetch_url e u (user_agent_autonomous cfg)
                   else ([], Inr ()))
            in case checked of
                 Inl err \<Rightarrow> (reqs1, Inl err)
               | Inr _ \<Rightarrow>
                   let (reqs2, fetched) = fetch_url e u (user_agent_autonomous cfg) (raw args)
                   in case fetched of
                        Inl err \<Rightarrow> (reqs1 @ reqs2, Inl err)
                      | Inr (content, prefix) \<Rightarrow>
                          let content' = fst (window content (start_index args) (max_length args))
                          in (reqs1 @ reqs2,
                              Inr [\<lparr>tc_type = ''text'',
                                    tc_text = prefix @ ''Contents of '' @ u @ '':'' @ nl @ content'\<rparr>]))"

record PromptMessage =
  role :: string
  pm_content :: TextContent

record GetPromptResult =
  description :: string
  messages :: "PromptMessage list"

text \<open>
  The prompt handler; \<open>arguments\<close> is an optional dictionary from names to texts. The
  prompt name is not inspected either.
\<close>

definition get_prompt ::
    "env \<Rightarrow> config \<Rightarrow> string \<Rightarrow> (string \<rightharpoonup> string) option
       \<Rightarrow> request list \<times> (McpError + GetPromptResult)" where
  "get_prompt e cfg name arguments =
     (case (case arguments of None \<Rightarrow> None | Some d \<Rightarrow> d ''url'') of
        None \<Rightarrow> ([], Inl (McpError \<lparr>code = INVALID_PARAMS, message = ''URL is required''\<rparr>))
      | Some u \<Rightarrow>
          let (reqs, fetched) = fetch_url e u (user_agent_manual cfg) False
          in case fetched of
               Inl err \<Rightarrow>
                 (reqs,
                  Inr \<lparr>description = ''Failed to fetch '' @ u,
                       messages = [\<lparr>role = ''user'',
                                     pm_content = \<lparr>tc_type = ''text'', tc_text = str_McpError err\<rparr>\<rparr>]\<rparr>)
             | Inr (content, prefix) \<Rightarrow>
                 (reqs,
                  Inr \<lparr>description = ''Contents of '' @ u,
                       messages = [\<lparr>role = ''user'',
                                     pm_content = \<lparr>tc_type = ''text'', tc_text = prefix @ content\<rparr>\<rparr>]\<rparr>))"

section \<open>Example inputs\<close>

text \<open>A small site, a toy rule parser and toy extraction functions, for concrete instances.\<close>

definition ex_robots_txt :: string where
  "ex_robots_txt = ''User-agent: *'' @ nl @ ''# Disallow: /page'' @ nl @ ''Disallow: /private''"

definition ex_page :: string where
  "ex_page = ''<html><body><p>Hello world</p></body></html>''"

definition ex_http_get :: "int \<Rightarrow> request \<Rightarrow> http_error + response" where
  "ex_http_get st r =
     (if req_url r = ''http://example.com/robots.txt''
      then Inr \<lparr>status_code = st, resp_headers = Map.empty, resp_text = ex_robots_txt\<rparr>
      else if req_url r = ''http://example.com/page''
      then Inr \<lparr>status_code = 200, resp_headers = [''content-type'' \<mapsto> ''text/html''],
                resp_text = ex_page\<rparr>
      else Inl (HTTPError ''ConnectError()''))"

definition ex_can_fetch :: "string \<Rightarrow> string \<Rightarrow> string \<Rightarrow> bool" where
  "ex_can_fetch rules u ua \<longleftrightarrow>
     \<not> (contains ''Disallow: /page'' rules \<and> contains ''/page'' u)
     \<and> \<not> (contains ''Disallow: /private'' rules \<and> contains ''/private'' u)"

text \<open>A parser for URLs of the shape \<open>scheme://netloc/path?query#fragment\<close>.\<close>

definition ex_urlparse :: "string \<Rightarrow> parse_result" where
  "ex_urlparse u =
     (let sch = takeWhile (\<lambda>c. c \<noteq> CHR '':'') u;
          r0 = drop 3 (dropWhile (\<lambda>c. c \<noteq> CHR '':'') u);
          loc = takeWhile (\<lambda>c. c \<notin> {CHR ''/'', CHR ''?'', CHR ''#''}) r0;
          r1 = dropWhile (\<lambda>c. c \<notin> {CHR ''/'', CHR ''?'', CHR ''#''}) r0;
          pth = takeWhile (\<lambda>c. c \<notin> {CHR ''?'', CHR ''#''}) r1;
          r2 = dropWhile (\<lambda>c. c \<notin> {CHR ''?'', CHR ''#''}) r1;
          qry = (if take 1 r2 = ''?'' then takeWhile (\<lambda>c. c \<noteq> CHR ''#'') (drop 1 r2) else []);
          frag = drop 1 (dropWhile (\<lambda>c. c \<noteq> CHR ''#'') r2)
      in \<lparr>scheme = sch, netloc = loc, path = pth, params = [], query = qry, fragment = frag\<rparr>)"

definition ex_env :: "int \<Rightarrow> env" where
  "ex_env st =
     \<lparr>http_get = ex_http_get st,
      urlparse = ex_urlparse,
      can_fetch = ex_can_fetch,
      readable_content = (\<lambda>html. if html = ex_page then Some ''<p>Hello world</p>'' else None),
      markdownify = (\<lambda>h. ''Hello world''),
      any_url = (\<lambda>s. if s = [] then None else Some s),
      validation_text = (\<lambda>a. ''1 validation error for Fetch'')\<rparr>"

definition ex_cfg :: "string option \<Rightarrow> config" where
  "ex_cfg ua = \<lparr>custom_user_agent = ua, ignore_robots_txt = False\<rparr>"

definition ex_args :: "string \<Rightarrow> int \<Rightarrow> arguments" where
  "ex_args u s = \<lparr>arg_url = Some u, arg_max_length = None, arg_start_index = Some s, arg_raw = None\<rparr>"

definition ex_page_url :: string where
  "ex_page_url = ''http://example.com/page''"

definition ex_private_url :: string where
  "ex_private_url = ''http://example.com/private''"

section \<open>Strings: substrings and slices\<close>

lemma startswith_iff: "startswith s p \<longleftrightarrow> (\<exists>ss. s = p @ ss)"
proof
  assume "startswith s p"
  then have "s = p @ drop (length p) s"
    by (metis append_take_drop_id startswith_def)
  then show "\<exists>ss. s = p @ ss" ..
next
  assume "\<exists>ss. s = p @ ss"
  then show "startswith s p" by (auto simp add: startswith_def)
qed

lemma contains_iff: "contains needle hay \<longleftrightarrow> (\<exists>ps ss. hay = ps @ needle @ ss)"
proof (induction hay)
  case Nil
  show ?case by simp
next
  case (Cons c cs)
  show ?case
  proof
    assume "contains needle (c # cs)"
    then consider "startswith (c # cs) needle" | "contains needle cs" by auto
    then show "\<exists>ps ss. c # cs = ps @ needle @ ss"
    proof cases
      case 1
      then obtain ss where "c # cs = needle @ ss" by (auto simp add: startswith_iff)
      then have "c # cs = [] @ needle @ ss" by simp
      then show ?thesis by blast
    next
      case 2
      with Cons.IH obtain ps ss where "cs = ps @ needle @ ss" by blast
      then have "c # cs = (c # ps) @ needle @ ss" by simp
      then show ?thesis by blast
    qed
  next
    assume "\<exists>ps ss. c # cs = ps @ needle @ ss"
    then obtain ps ss where eq: "c # cs = ps @ needle @ ss" by blast
    show "contains needle (c # cs)"
    proof (cases ps)
      case Nil
      with eq have "startswith (c # cs) needle" by (auto simp add: startswith_iff)
      then show ?thesis by simp
    next
      case (Cons p ps')
      with eq have "cs = ps' @ needle @ ss" by simp
      with Cons.IH have "contains needle cs" by blast
      then show ?thesis by simp
    qed
  qed
qed

lemma py_slice_in_range:
  assumes "0 \<le> a" "a \<le> b"
  shows "py_slice xs a b = take (nat (b - a)) (drop (nat a) xs)"
proof (cases "a \<le> int (length xs)")
  case True
  show ?thesis
  proof (cases "b \<le> int (length xs)")
    case True
    with assms \<open>a \<le> int (length xs)\<close> show ?thesis
      by (simp add: py_slice_def Let_def min_def)
  next
    case False
    with assms \<open>a \<le> int (length xs)\<close> show ?thesis
      by (simp add: py_slice_def Let_def min_def)
  qed
next
  case False
  with assms show ?thesis
    by (simp add: py_slice_def Let_def min_def)
qed

lemma py_slice_prefix: "0 \<le> n \<Longrightarrow> py_slice xs 0 n = take (nat n) xs"
  by (simp add: py_slice_def Let_def min_def)

section \<open>Result windowing\<close>

lemma truncation_hint_length: "2 \<le> length (truncation_hint n)"
  by (simp add: truncation_hint_def nl_def)

lemma window_cases:
  "window content s m =
     (if int (length content) \<le> s \<or> py_slice content s (s + m) = [] then (no_more_content, None)
      else if int (length (py_slice content s (s + m))) = m
              \<and> s + m < int (length content)
      then (py_slice content s (s + m) @ truncation_hint (s + m), Some (s + m))
      else (py_slice content s (s + m), None))"
  by (auto simp add: window_def Let_def)

text \<open>
  Claim C1. For every content, \<open>max_length > 0\<close> and \<open>0 \<le> start_index < len(content)\<close>, the
  slice is \<open>content[start_index : start_index + max_length]\<close>, and the windowing step
  appends the continuation hint and binds \<open>next_start = start_index + max_length\<close> if and
  only if the slice is exactly \<open>max_length\<close> long and \<open>start_index + max_length\<close> is below
  the length of the content. In every other case, and so whenever the slice is shorter
  than \<open>max_length\<close>, the slice is returned as it is, with no hint.
\<close>

theorem window_hint_iff:
  assumes "0 < m" and "0 \<le> s" and "s < int (length content)"
  shows "py_slice content s (s + m) = take (nat m) (drop (nat s) content)
       \<and> ((window content s m
              = (py_slice content s (s + m) @ truncation_hint (s + m), Some (s + m)))
            \<longleftrightarrow> (int (length (py_slice content s (s + m))) = m \<and> s + m < int (length content)))
       \<and> (\<not> (int (length (py_slice content s (s + m))) = m \<and> s + m < int (length content))
            \<longrightarrow> window content s m = (py_slice content s (s + m), None))
       \<and> (int (length (py_slice content s (s + m))) < m
            \<longrightarrow> window content s m = (py_slice content s (s + m), None))"
proof -
  let ?sl = "py_slice content s (s + m)"
  have sl: "?sl = take (nat m) (drop (nat s) content)"
    using assms by (simp add: py_slice_in_range)
  have ne: "?sl \<noteq> []"
    using assms by (simp add: sl)
  have w: "window content s m =
      (if int (length ?sl) = m \<and> s + m < int (length content)
       then (?sl @ truncation_hint (s + m), Some (s + m)) else (?sl, None))"
    using assms ne by (simp add: window_cases)
  let ?c = "int (length ?sl) = m \<and> s + m < int (length content)"
  have c2: "(window content s m = (?sl @ truncation_hint (s + m), Some (s + m))) \<longleftrightarrow> ?c"
    using w by (cases ?c) simp_all
  have c3: "\<not> ?c \<longrightarrow> window content s m = (?sl, None)"
    using w by simp
  have c4: "int (length ?sl) < m \<longrightarrow> window content s m = (?sl, None)"
    using w by auto
  show ?thesis
    using sl c2 c3 c4 by blast
qed

theorem window_hint_iff_witness:
  "window ''Hello world string of length 50'' 0 10 = (''Hello worl'' @ truncation_hint 10, Some 10)
   \<and> window ''abc'' 1 5 = (''bc'', None)"
proof -
  have s1: "py_slice ''Hello world string of length 50'' 0 10 = ''Hello worl''"
    by (simp add: py_slice_def)
  have s2: "py_slice ''abc'' 1 6 = ''bc''"
    by (simp add: py_slice_def)
  have "window ''Hello world string of length 50'' 0 10 = (''Hello worl'' @ truncation_hint 10, Some 10)"
    using window_hint_iff [of 10 0 "''Hello world string of length 50''"] by (simp add: s1)
  moreover have "window ''abc'' 1 5 = (''bc'', None)"
    using window_hint_iff [of 5 1 "''abc''"] by (simp add: s2)
  ultimately show ?thesis by simp
qed

text \<open>
  Claim C2. When \<open>start_index\<close> is at or beyond the length of the content, or the slice
  \<open>content[start_index : start_index + max_length]\<close> is empty, the windowing step returns
  the text \<open><error>No more content available.</error>\<close> and binds no \<open>next_start\<close>. The
  result is a function of the three inputs, and the bounds \<open>max_length > 0\<close> and
  \<open>start_index \<ge> 0\<close> are not needed for it. (Under these bounds the slice is empty only
  when \<open>start_index\<close> is at or beyond the length.)
\<close>

theorem window_no_more_content:
  assumes "int (length content) \<le> s \<or> py_slice content s (s + m) = []"
  shows "window content s m = (no_more_content, None)"
  using assms by (auto simp add: window_cases)

theorem window_no_more_content_witness:
  "window ''abc'' 3 10 = (no_more_content, None)
   \<and> window ''abc'' 7 10 = (no_more_content, None)
   \<and> window ''abc'' 1 0 = (no_more_content, None)"
proof -
  have e: "py_slice ''abc'' 1 (1 + 0) = []"
    by (simp add: py_slice_def)
  from window_no_more_content [of "''abc''" 3 10] window_no_more_content [of "''abc''" 7 10]
    window_no_more_content [of "''abc''" 1 0] e
  show ?thesis by simp
qed

text \<open>
  Claim C9. Whenever the hint is emitted (\<open>next_start\<close> is bound), the returned content is
  the slice of \<open>max_length\<close> characters followed by the hint for
  \<open>next_start = start_index + max_length\<close>, and it is strictly longer than \<open>max_length\<close>.
\<close>

theorem window_hint_exceeds_max_length:
  assumes "snd (window content s m) = Some n"
  shows "fst (window content s m) = py_slice content s (s + m) @ truncation_hint n
       \<and> int (length (py_slice content s (s + m))) = m
       \<and> n = s + m
       \<and> m < int (length (fst (window content s m)))"
proof -
  from assms have c: "\<not> (int (length content) \<le> s \<or> py_slice content s (s + m) = [])"
     and d: "int (length (py_slice content s (s + m))) = m \<and> s + m < int (length content)"
    by (auto simp add: window_cases split: if_splits)
  from c d have w: "window content s m
      = (py_slice content s (s + m) @ truncation_hint (s + m), Some (s + m))"
    by (simp add: window_cases)
  with assms have n: "n = s + m" by simp
  have "int (length (fst (window content s m))) = m + int (length (truncation_hint n))"
    using w d n by simp
  with truncation_hint_length [of n] have "m < int (length (fst (window content s m)))"
    by linarith
  with w d n show ?thesis by simp
qed

theorem window_hint_exceeds_max_length_witness:
  "snd (window ''Hello world'' 0 5) = Some 5
   \<and> fst (window ''Hello world'' 0 5) = ''Hello'' @ truncation_hint 5
   \<and> (5::int) < int (length (fst (window ''Hello world'' 0 5)))"
proof -
  have s: "py_slice ''Hello world'' 0 5 = ''Hello''"
    by (simp add: py_slice_def)
  have h: "snd (window ''Hello world'' 0 5) = Some 5"
    by (simp add: window_cases s)
  note r = window_hint_exceeds_max_length [OF h]
  from r have "fst (window ''Hello world'' 0 5) = py_slice ''Hello world'' 0 5 @ truncation_hint 5"
    by simp
  then have f: "fst (window ''Hello world'' 0 5) = ''Hello'' @ truncation_hint 5"
    by (simp only: s)
  from r have l: "(5::int) < int (length (fst (window ''Hello world'' 0 5)))"
    by blast
  from h f l show ?thesis by blast
qed

section \<open>HTML classification\<close>

text \<open>
  Claim C3. The body is classified as HTML exactly when its first 100 characters contain
  \<open><html\<close> as a contiguous, case-sensitive substring, or the \<open>content-type\<close> header value
  contains \<open>text/html\<close>, or the header is absent or empty.
\<close>

theorem is_page_html_iff:
  "is_page_html page_raw (content_type_of response) \<longleftrightarrow>
     (\<exists>ps ss. take 100 page_raw = ps @ ''<html'' @ ss)
     \<or> (\<exists>v ps ss. resp_headers response ''content-type'' = Some v \<and> v = ps @ ''text/html'' @ ss)
     \<or> resp_headers response ''content-type'' = None
     \<or> resp_headers response ''content-type'' = Some ''''"
proof -
  have sl: "py_slice page_raw 0 100 = take 100 page_raw"
    using py_slice_prefix [of 100 page_raw] by simp
  show ?thesis
  proof (cases "resp_headers response ''content-type''")
    case None
    then show ?thesis by (simp add: is_page_html_def content_type_of_def)
  next
    case (Some v)
    then show ?thesis
      by (simp add: is_page_html_def content_type_of_def sl contains_iff)
  qed
qed

theorem is_page_html_iff_witness:
  "is_page_html ''<!doctype html><html><body>x</body></html>''
      (content_type_of \<lparr>status_code = 200, resp_headers = [''content-type'' \<mapsto> ''application/json''],
                        resp_text = ''''\<rparr>)
   \<and> is_page_html ''{}''
      (content_type_of \<lparr>status_code = 200,
                        resp_headers = [''content-type'' \<mapsto> ''text/html; charset=utf-8''],
                        resp_text = ''''\<rparr>)
   \<and> is_page_html ''{}''
      (content_type_of \<lparr>status_code = 200, resp_headers = Map.empty, resp_text = ''''\<rparr>)"
proof -
  have "take 100 ''<!doctype html><html><body>x</body></html>''
          = ''<!doctype html>'' @ ''<html'' @ ''><body>x</body></html>''"
    by simp
  then have a: "\<exists>ps ss. take 100 ''<!doctype html><html><body>x</body></html>'' = ps @ ''<html'' @ ss"
    by blast
  have "''text/html; charset=utf-8'' = [] @ ''text/html'' @ ''; charset=utf-8''" by simp
  then have b: "\<exists>ps ss. ''text/html; charset=utf-8'' = ps @ ''text/html'' @ ss" by blast
  show ?thesis
    using a b
      is_page_html_iff [of "''<!doctype html><html><body>x</body></html>''"
             "\<lparr>status_code = 200, resp_headers = [''content-type'' \<mapsto> ''application/json''],
               resp_text = ''''\<rparr>"]
      is_page_html_iff [of "''{}''" "\<lparr>status_code = 200,
                        resp_headers = [''content-type'' \<mapsto> ''text/html; charset=utf-8''],
                        resp_text = ''''\<rparr>"]
      is_page_html_iff [of "''{}''" "\<lparr>status_code = 200, resp_headers = Map.empty, resp_text = ''''\<rparr>"]
    by simp
qed

lemma is_page_html_upper_case:
  "\<not> is_page_html ''<HTML><BODY>x</BODY></HTML>'' ''application/json''"
  by (simp add: is_page_html_def py_slice_def startswith_def)

section \<open>The robots location\<close>


lemma ex_robots_url:
  "get_robots_txt_url (ex_env st) ex_page_url = ''http://example.com/robots.txt''"
  "get_robots_txt_url (ex_env st) ex_private_url = ''http://example.com/robots.txt''"
  by (simp_all add: get_robots_txt_url_def ex_env_def ex_urlparse_def ex_page_url_def
        ex_private_url_def Let_def urlunparse_def urlunsplit_def)


section \<open>Lines of the robots text\<close>

lemma splitlines_no_break:
  assumes "\<forall>c \<in> set x. \<not> is_linebreak c"
  shows "splitlines x = (if x = [] then [] else [x])"
proof -
  from assms have t: "takeWhile (\<lambda>c. \<not> is_linebreak c) x = x"
    and d: "dropWhile (\<lambda>c. \<not> is_linebreak c) x = []"
    by simp_all
  show ?thesis
    by (subst splitlines.simps) (simp only: t d Let_def list.case)
qed

lemma nl_is_linebreak: "is_linebreak (CHR 0x0A)"
  by (simp add: is_linebreak_def)

lemma splitlines_line_nl:
  assumes "\<forall>c \<in> set x. \<not> is_linebreak c"
  shows "splitlines (x @ nl @ rest) = x # splitlines rest"
proof -
  from assms have t: "takeWhile (\<lambda>c. \<not> is_linebreak c) (x @ nl @ rest) = x"
    by (simp add: nl_def nl_is_linebreak takeWhile_append2)
  from assms have d: "dropWhile (\<lambda>c. \<not> is_linebreak c) (x @ nl @ rest) = CHR 0x0A # rest"
    by (simp add: nl_def nl_is_linebreak dropWhile_append2)
  have ne: "x @ nl @ rest \<noteq> []" by (simp add: nl_def)
  have r: "(case rest of [] \<Rightarrow> rest
            | d # ds \<Rightarrow> if CHR 0x0A = CHR 0x0D \<and> d = CHR 0x0A then ds else rest) = rest"
    by (simp split: list.split)
  show ?thesis
    by (subst splitlines.simps) (simp only: ne t d r Let_def if_False list.case)
qed

lemma splitlines_lines_no_break:
  "l \<in> set (splitlines s) \<Longrightarrow> c \<in> set l \<Longrightarrow> \<not> is_linebreak c"
proof (induction s arbitrary: l rule: splitlines.induct)
  case (1 s)
  show ?case
  proof (cases "s = []")
    case True
    with "1.prems" show ?thesis by (simp add: splitlines.simps)
  next
    case False
    let ?line = "takeWhile (\<lambda>c. \<not> is_linebreak c) s"
    let ?rest = "dropWhile (\<lambda>c. \<not> is_linebreak c) s"
    have line: "\<And>c. c \<in> set ?line \<Longrightarrow> \<not> is_linebreak c"
      by (auto dest: set_takeWhileD)
    show ?thesis
    proof (cases ?rest)
      case Nil
      with False have "splitlines s = [?line]"
        by (subst splitlines.simps) (simp only: Let_def list.case if_False)
      with "1.prems" line show ?thesis by auto
    next
      case (Cons b bs)
      let ?next = "case bs of [] \<Rightarrow> bs
                   | d # ds \<Rightarrow> if b = CHR 0x0D \<and> d = CHR 0x0A then ds else bs"
      from False Cons have eq: "splitlines s = ?line # splitlines ?next"
        by (subst splitlines.simps) (simp only: Let_def list.case if_False)
      from "1.prems"(1) eq consider "l = ?line" | "l \<in> set (splitlines ?next)" by auto
      then show ?thesis
      proof cases
        case 1
        with "1.prems"(2) line show ?thesis by blast
      next
        case 2
        from "1.IH" [OF False refl refl Cons 2 "1.prems"(2)] show ?thesis .
      qed
    qed
  qed
qed

lemma splitlines_join:
  assumes "\<forall>l \<in> set ls. \<forall>c \<in> set l. \<not> is_linebreak c"
  shows "splitlines (join nl ls) = (if ls \<noteq> [] \<and> last ls = [] then butlast ls else ls)"
  using assms
proof (induction nl ls rule: join.induct)
  case 1
  show ?case by (simp add: splitlines.simps)
next
  case (2 x)
  then show ?case by (simp add: splitlines_no_break)
next
  case (3 x y ys)
  then have "splitlines (join nl (x # y # ys)) = x # splitlines (join nl (y # ys))"
    by (simp add: splitlines_line_nl)
  with 3 show ?case by simp
qed

lemma splitlines_processed:
  "splitlines (processed_robot_txt t) =
     (let ls = filter (\<lambda>line. \<not> startswith (strip line) ''#'') (splitlines t)
      in if ls \<noteq> [] \<and> last ls = [] then butlast ls else ls)"
proof -
  have "\<forall>l \<in> set (filter (\<lambda>line. \<not> startswith (strip line) ''#'') (splitlines t)).
           \<forall>c \<in> set l. \<not> is_linebreak c"
    using splitlines_lines_no_break by auto
  then show ?thesis
    unfolding processed_robot_txt_def Let_def by (rule splitlines_join)
qed

lemma processed_lines_subset:
  "set (splitlines (processed_robot_txt t))
     \<subseteq> {l \<in> set (splitlines t). \<not> startswith (strip l) ''#''}"
proof -
  let ?ls = "filter (\<lambda>line. \<not> startswith (strip line) ''#'') (splitlines t)"
  have "set (splitlines (processed_robot_txt t)) \<subseteq> set ?ls"
    by (auto simp add: splitlines_processed Let_def dest: in_set_butlastD)
  then show ?thesis by auto
qed

section \<open>The robots check\<close>

lemma infix_witness: "\<exists>ps ss. a @ x @ b = ps @ x @ ss"
  by blast

lemma denied_message_embeds:
  "(\<exists>ps ss. robots_denied_message r ua u t = ps @ r @ ss)
   \<and> (\<exists>ps ss. robots_denied_message r ua u t = ps @ ''<useragent>'' @ ua @ ''</useragent>'' @ ss)
   \<and> (\<exists>ps ss. robots_denied_message r ua u t = ps @ ''<url>'' @ u @ ''</url>'' @ ss)
   \<and> (\<exists>ps ss. robots_denied_message r ua u t = ps @ ''<robots>'' @ nl @ t @ nl @ ''</robots>'' @ ss)"
proof -
  have 1: "\<exists>ps ss. robots_denied_message r ua u t = ps @ r @ ss"
    unfolding robots_denied_message_def by (rule infix_witness)
  have "robots_denied_message r ua u t =
      (''The sites robots.txt ('' @ r
       @ ''), specifies that autonomous fetching of this page is not allowed, '')
       @ (''<useragent>'' @ ua @ ''</useragent>'') @ (nl
       @ ''<url>'' @ u @ ''</url>''
       @ ''<robots>'' @ nl @ t @ nl @ ''</robots>'' @ nl
       @ ''The assistant must let the user know that it failed to view the page. The assistant may provide further guidance based on the above information.'' @ nl
       @ ''The assistant can tell the user that they can try manually fetching the page by using the fetch prompt within their UI.'')"
    unfolding robots_denied_message_def by (simp only: append_assoc)
  then have 2: "\<exists>ps ss. robots_denied_message r ua u t = ps @ (''<useragent>'' @ ua @ ''</useragent>'') @ ss"
    by (metis infix_witness)
  have "robots_denied_message r ua u t =
      (''The sites robots.txt ('' @ r
       @ ''), specifies that autonomous fetching of this page is not allowed, ''
       @ ''<useragent>'' @ ua @ ''</useragent>'' @ nl)
       @ (''<url>'' @ u @ ''</url>'')
       @ (''<robots>'' @ nl @ t @ nl @ ''</robots>'' @ nl
       @ ''The assistant must let the user know that it failed to view the page. The assistant may provide further guidance based on the above information.'' @ nl
       @ ''The assistant can tell the user that they can try manually fetching the page by using the fetch prompt within their UI.'')"
    unfolding robots_denied_message_def by (simp only: append_assoc)
  then have 3: "\<exists>ps ss. robots_denied_message r ua u t = ps @ (''<url>'' @ u @ ''</url>'') @ ss"
    by (metis infix_witness)
  have "robots_denied_message r ua u t =
      (''The sites robots.txt ('' @ r
       @ ''), specifies that autonomous fetching of this page is not allowed, ''
       @ ''<useragent>'' @ ua @ ''</useragent>'' @ nl
       @ ''<url>'' @ u @ ''</url>'')
       @ (''<robots>'' @ nl @ t @ nl @ ''</robots>'')
       @ (nl
       @ ''The assistant must let the user know that it failed to view the page. The assistant may provide further guidance based on the above information.'' @ nl
       @ ''The assistant can tell the user that they can try manually fetching the page by using the fetch prompt within their UI.'')"
    unfolding robots_denied_message_def by (simp only: append_assoc)
  then have 4: "\<exists>ps ss. robots_denied_message r ua u t = ps @ (''<robots>'' @ nl @ t @ nl @ ''</robots>'') @ ss"
    by (metis infix_witness)
  from 1 2 3 4 show ?thesis by (simp only: append_assoc) 
qed

lemma robots_url_can_fetch_update [simp]:
  "get_robots_txt_url (e\<lparr>can_fetch := f\<rparr>) u = get_robots_txt_url e u"
  by (simp add: get_robots_txt_url_def)

lemma check_outcome:
  assumes "http_get e \<lparr>req_url = get_robots_txt_url e u, follow_redirects = True,
             req_headers = [(''User-Agent'', ua)], timeout = None\<rparr> = Inr response"
  shows "snd (check_may_autonomously_fetch_url e u ua) =
     (if status_code response = 401 \<or> status_code response = 403
      then Inl (McpError \<lparr>code = INTERNAL_ERROR,
                 message = robots_status_message (get_robots_txt_url e u) (status_code response)\<rparr>)
      else if 400 \<le> status_code response \<and> status_code response < 500 then Inr ()
      else if can_fetch e (processed_robot_txt (resp_text response)) u ua then Inr ()
      else Inl (McpError \<lparr>code = INTERNAL_ERROR,
                 message = robots_denied_message (get_robots_txt_url e u) ua u (resp_text response)\<rparr>))"
  using assms by (simp add: check_may_autonomously_fetch_url_def Let_def)

lemma ex_splitlines:
  "splitlines ex_robots_txt = [''User-agent: *'', ''# Disallow: /page'', ''Disallow: /private'']"
proof -
  have a: "\<forall>c \<in> set ''User-agent: *''. \<not> is_linebreak c"
    and b: "\<forall>c \<in> set ''# Disallow: /page''. \<not> is_linebreak c"
    and c: "\<forall>c \<in> set ''Disallow: /private''. \<not> is_linebreak c"
    by (simp_all add: is_linebreak_def)
  show ?thesis
    unfolding ex_robots_txt_def
    by (simp only: splitlines_line_nl [OF a] splitlines_line_nl [OF b] splitlines_no_break [OF c])
       simp
qed

lemma ex_processed:
  "processed_robot_txt ex_robots_txt = ''User-agent: *'' @ nl @ ''Disallow: /private''"
  by (simp add: processed_robot_txt_def ex_splitlines strip_def py_isspace_def startswith_def)

lemma ex_robots_response:
  "http_get (ex_env st) \<lparr>req_url = get_robots_txt_url (ex_env st) ex_page_url,
       follow_redirects = True, req_headers = [(''User-Agent'', ua)], timeout = None\<rparr>
     = Inr \<lparr>status_code = st, resp_headers = Map.empty, resp_text = ex_robots_txt\<rparr>"
  "http_get (ex_env st) \<lparr>req_url = get_robots_txt_url (ex_env st) ex_private_url,
       follow_redirects = True, req_headers = [(''User-Agent'', ua)], timeout = None\<rparr>
     = Inr \<lparr>status_code = st, resp_headers = Map.empty, resp_text = ex_robots_txt\<rparr>"
  by (simp_all add: ex_robots_url) (simp_all add: ex_env_def ex_http_get_def)

lemma ex_can_fetch_page:
  "can_fetch (ex_env st) (processed_robot_txt ex_robots_txt) ex_page_url ua"
  by (simp add: ex_processed) (simp add: ex_env_def ex_can_fetch_def ex_page_url_def nl_def startswith_def)

lemma ex_can_fetch_private:
  "\<not> can_fetch (ex_env st) (processed_robot_txt ex_robots_txt) ex_private_url ua"
  by (simp add: ex_processed) (simp add: ex_env_def ex_can_fetch_def ex_private_url_def nl_def startswith_def)

text \<open>
  Claim C4. Given the response to the robots request: status 401 or 403 raises the
  status error whatever the rule parser would say; any other status from 400 to 499
  returns normally whatever the rule parser would say; for every other status the
  processed robots text is handed to the rule parser with the target URL and the
  user agent, and the denial error is raised exactly when the parser disallows it.
\<close>

theorem robots_status_outcome:
  assumes "http_get e \<lparr>req_url = get_robots_txt_url e u, follow_redirects = True,
             req_headers = [(''User-Agent'', ua)], timeout = None\<rparr> = Inr response"
  shows "(status_code response = 401 \<or> status_code response = 403 \<longrightarrow>
            (\<forall>f. snd (check_may_autonomously_fetch_url (e\<lparr>can_fetch := f\<rparr>) u ua) =
               Inl (McpError \<lparr>code = INTERNAL_ERROR,
                     message = robots_status_message (get_robots_txt_url e u)
                                 (status_code response)\<rparr>)))
       \<and> (400 \<le> status_code response \<and> status_code response < 500
            \<and> status_code response \<noteq> 401 \<and> status_code response \<noteq> 403 \<longrightarrow>
            (\<forall>f. snd (check_may_autonomously_fetch_url (e\<lparr>can_fetch := f\<rparr>) u ua) = Inr ()))
       \<and> (\<not> (400 \<le> status_code response \<and> status_code response < 500) \<longrightarrow>
            snd (check_may_autonomously_fetch_url e u ua) =
              (if can_fetch e (processed_robot_txt (resp_text response)) u ua then Inr ()
               else Inl (McpError \<lparr>code = INTERNAL_ERROR,
                          message = robots_denied_message (get_robots_txt_url e u) ua u
                                      (resp_text response)\<rparr>)))"
proof -
  have upd: "\<And>f. http_get (e\<lparr>can_fetch := f\<rparr>) \<lparr>req_url = get_robots_txt_url (e\<lparr>can_fetch := f\<rparr>) u,
             follow_redirects = True, req_headers = [(''User-Agent'', ua)], timeout = None\<rparr>
           = Inr response"
    using assms by simp
  have a: "status_code response = 401 \<or> status_code response = 403 \<longrightarrow>
            (\<forall>f. snd (check_may_autonomously_fetch_url (e\<lparr>can_fetch := f\<rparr>) u ua) =
               Inl (McpError \<lparr>code = INTERNAL_ERROR,
                     message = robots_status_message (get_robots_txt_url e u)
                                 (status_code response)\<rparr>))"
    using check_outcome [OF upd] by simp
  have b: "400 \<le> status_code response \<and> status_code response < 500
            \<and> status_code response \<noteq> 401 \<and> status_code response \<noteq> 403 \<longrightarrow>
            (\<forall>f. snd (check_may_autonomously_fetch_url (e\<lparr>can_fetch := f\<rparr>) u ua) = Inr ())"
    using check_outcome [OF upd] by simp
  have c: "\<not> (400 \<le> status_code response \<and> status_code response < 500) \<longrightarrow>
            snd (check_may_autonomously_fetch_url e u ua) =
              (if can_fetch e (processed_robot_txt (resp_text response)) u ua then Inr ()
               else Inl (McpError \<lparr>code = INTERNAL_ERROR,
                          message = robots_denied_message (get_robots_txt_url e u) ua u
                                      (resp_text response)\<rparr>))"
    using check_outcome [OF assms] by auto
  from a b c show ?thesis by blast
qed

theorem robots_status_outcome_witness:
  "snd (check_may_autonomously_fetch_url (ex_env 403) ex_page_url ''Bot'') =
      Inl (McpError \<lparr>code = INTERNAL_ERROR,
            message = robots_status_message ''http://example.com/robots.txt'' 403\<rparr>)
   \<and> snd (check_may_autonomously_fetch_url (ex_env 404) ex_page_url ''Bot'') = Inr ()
   \<and> snd (check_may_autonomously_fetch_url (ex_env 200) ex_page_url ''Bot'') = Inr ()
   \<and> snd (check_may_autonomously_fetch_url (ex_env 200) ex_private_url ''Bot'') =
      Inl (McpError \<lparr>code = INTERNAL_ERROR,
            message = robots_denied_message ''http://example.com/robots.txt'' ''Bot''
                        ex_private_url ex_robots_txt\<rparr>)"
proof -
  have u: "\<And>st. (ex_env st)\<lparr>can_fetch := can_fetch (ex_env st)\<rparr> = ex_env st" by simp
  have a: "snd (check_may_autonomously_fetch_url (ex_env 403) ex_page_url ''Bot'') =
      Inl (McpError \<lparr>code = INTERNAL_ERROR,
            message = robots_status_message ''http://example.com/robots.txt'' 403\<rparr>)"
    using robots_status_outcome [OF ex_robots_response(1) [of 403 "''Bot''"]]
    by (simp add: ex_robots_url) (metis u)
  have b: "snd (check_may_autonomously_fetch_url (ex_env 404) ex_page_url ''Bot'') = Inr ()"
    using robots_status_outcome [OF ex_robots_response(1) [of 404 "''Bot''"]]
    by simp (metis u)
  have c: "snd (check_may_autonomously_fetch_url (ex_env 200) ex_page_url ''Bot'') = Inr ()"
    using robots_status_outcome [OF ex_robots_response(1) [of 200 "''Bot''"]]
    by (simp add: ex_can_fetch_page)
  have d: "snd (check_may_autonomously_fetch_url (ex_env 200) ex_private_url ''Bot'') =
      Inl (McpError \<lparr>code = INTERNAL_ERROR,
            message = robots_denied_message ''http://example.com/robots.txt'' ''Bot''
                        ex_private_url ex_robots_txt\<rparr>)"
    using robots_status_outcome [OF ex_robots_response(2) [of 200 "''Bot''"]]
    by (simp add: ex_can_fetch_private ex_robots_url)
  from a b c d show ?thesis by simp
qed

text \<open>
  Claim C5. For a robots response outside 400 to 499: no line of the robots text whose
  trimmed content starts with \<open>#\<close> is a line of the text handed to the rule parser, every
  line handed over is a line of the robots text that is not such a comment, and the
  outcome depends on the parser only through its answer on that processed text. When the
  parser disallows the URL, the error message embeds the unfiltered robots text between
  \<open><robots>\<close> and \<open></robots>\<close>, the robots URL, the user agent and the target URL.
\<close>

theorem robots_comments_stripped_raw_text_reported:
  assumes resp: "http_get e \<lparr>req_url = get_robots_txt_url e u, follow_redirects = True,
             req_headers = [(''User-Agent'', ua)], timeout = None\<rparr> = Inr response"
    and st: "\<not> (400 \<le> status_code response \<and> status_code response < 500)"
  shows "(\<forall>l \<in> set (splitlines (resp_text response)).
             startswith (strip l) ''#''
               \<longrightarrow> l \<notin> set (splitlines (processed_robot_txt (resp_text response))))
       \<and> (\<forall>l \<in> set (splitlines (processed_robot_txt (resp_text response))).
             l \<in> set (splitlines (resp_text response)) \<and> \<not> startswith (strip l) ''#'')
       \<and> (\<forall>f. f (processed_robot_txt (resp_text response)) u ua
                 = can_fetch e (processed_robot_txt (resp_text response)) u ua
               \<longrightarrow> check_may_autonomously_fetch_url (e\<lparr>can_fetch := f\<rparr>) u ua
                     = check_may_autonomously_fetch_url e u ua)
       \<and> (\<not> can_fetch e (processed_robot_txt (resp_text response)) u ua \<longrightarrow>
            snd (check_may_autonomously_fetch_url e u ua) =
              Inl (McpError \<lparr>code = INTERNAL_ERROR,
                    message = robots_denied_message (get_robots_txt_url e u) ua u
                                (resp_text response)\<rparr>)
            \<and> (\<exists>ps ss. robots_denied_message (get_robots_txt_url e u) ua u (resp_text response)
                   = ps @ ''<robots>'' @ nl @ resp_text response @ nl @ ''</robots>'' @ ss)
            \<and> (\<exists>ps ss. robots_denied_message (get_robots_txt_url e u) ua u (resp_text response)
                   = ps @ get_robots_txt_url e u @ ss)
            \<and> (\<exists>ps ss. robots_denied_message (get_robots_txt_url e u) ua u (resp_text response)
                   = ps @ ''<useragent>'' @ ua @ ''</useragent>'' @ ss)
            \<and> (\<exists>ps ss. robots_denied_message (get_robots_txt_url e u) ua u (resp_text response)
                   = ps @ ''<url>'' @ u @ ''</url>'' @ ss))"
proof -
  let ?t = "resp_text response"
  have a: "\<forall>l \<in> set (splitlines ?t).
             startswith (strip l) ''#'' \<longrightarrow> l \<notin> set (splitlines (processed_robot_txt ?t))"
    using processed_lines_subset [of ?t] by auto
  have b: "\<forall>l \<in> set (splitlines (processed_robot_txt ?t)).
             l \<in> set (splitlines ?t) \<and> \<not> startswith (strip l) ''#''"
    using processed_lines_subset [of ?t] by auto
  have c: "\<forall>f. f (processed_robot_txt ?t) u ua = can_fetch e (processed_robot_txt ?t) u ua
               \<longrightarrow> check_may_autonomously_fetch_url (e\<lparr>can_fetch := f\<rparr>) u ua
                     = check_may_autonomously_fetch_url e u ua"
    using resp st by (auto simp add: check_may_autonomously_fetch_url_def Let_def)
  have d: "\<not> can_fetch e (processed_robot_txt ?t) u ua \<longrightarrow>
            snd (check_may_autonomously_fetch_url e u ua) =
              Inl (McpError \<lparr>code = INTERNAL_ERROR,
                    message = robots_denied_message (get_robots_txt_url e u) ua u ?t\<rparr>)"
    using check_outcome [OF resp] st by auto
  from a b c d denied_message_embeds [of "get_robots_txt_url e u" ua u ?t]
  show ?thesis by blast
qed

theorem robots_comments_stripped_raw_text_reported_witness:
  "''# Disallow: /page'' \<in> set (splitlines ex_robots_txt)
   \<and> startswith (strip ''# Disallow: /page'') ''#''
   \<and> ''# Disallow: /page'' \<notin> set (splitlines (processed_robot_txt ex_robots_txt))
   \<and> snd (check_may_autonomously_fetch_url (ex_env 200) ex_private_url ''Bot'') =
        Inl (McpError \<lparr>code = INTERNAL_ERROR,
              message = robots_denied_message ''http://example.com/robots.txt'' ''Bot''
                          ex_private_url ex_robots_txt\<rparr>)"
proof -
  have st: "\<not> (400 \<le> status_code \<lparr>status_code = 200, resp_headers = Map.empty,
                     resp_text = ex_robots_txt\<rparr>
              \<and> status_code \<lparr>status_code = 200, resp_headers = Map.empty,
                     resp_text = ex_robots_txt\<rparr> < 500)"
    by simp
  note r = robots_comments_stripped_raw_text_reported [OF ex_robots_response(2) [of 200 "''Bot''"] st]
  have a: "''# Disallow: /page'' \<in> set (splitlines ex_robots_txt)"
    by (simp add: ex_splitlines)
  have b: "startswith (strip ''# Disallow: /page'') ''#''"
    by (simp add: strip_def py_isspace_def startswith_def)
  from r a b have c: "''# Disallow: /page'' \<notin> set (splitlines (processed_robot_txt ex_robots_txt))"
    by simp
  from r ex_can_fetch_private [of 200 "''Bot''"]
  have d: "snd (check_may_autonomously_fetch_url (ex_env 200) ex_private_url ''Bot'') =
        Inl (McpError \<lparr>code = INTERNAL_ERROR,
              message = robots_denied_message ''http://example.com/robots.txt'' ''Bot''
                          ex_private_url ex_robots_txt\<rparr>)"
    by (simp add: ex_robots_url)
  from a b c d show ?thesis by blast
qed

section \<open>The tool handler\<close>

lemma ex_check_page:
  "check_may_autonomously_fetch_url (ex_env 200) ex_page_url ua =
     ([\<lparr>req_url = ''http://example.com/robots.txt'', follow_redirects = True,
        req_headers = [(''User-Agent'', ua)], timeout = None\<rparr>], Inr ())"
  by (simp add: check_may_autonomously_fetch_url_def ex_robots_url Let_def)
     (simp add: ex_env_def ex_http_get_def ex_processed ex_can_fetch_def ex_page_url_def nl_def
        startswith_def)

lemma ex_fetch_page:
  "fetch_url (ex_env st) ex_page_url ua False =
     ([\<lparr>req_url = ''http://example.com/page'', follow_redirects = True,
        req_headers = [(''User-Agent'', ua)], timeout = Some 30\<rparr>], Inr (''Hello world'', ''''))"
  by (simp add: fetch_url_def Let_def ex_env_def ex_http_get_def content_type_of_def
        is_page_html_def extract_content_from_html_def ex_page_def ex_page_url_def py_slice_def
        startswith_def)

lemma ex_Fetch_init:
  "u \<noteq> [] \<Longrightarrow> 0 \<le> s \<Longrightarrow>
   Fetch_init (ex_env st) (ex_args u s) = Inr \<lparr>url = u, max_length = 5000, start_index = s, raw = False\<rparr>"
  by (simp add: Fetch_init_def ex_args_def ex_env_def)

lemma Fetch_init_bounds:
  assumes "Fetch_init e a = Inr args"
  shows "0 < max_length args \<and> max_length args < 1000000 \<and> 0 \<le> start_index args"
  using assms
  by (auto simp add: Fetch_init_def Let_def split: option.splits if_splits)

lemma call_tool_success:
  assumes "Fetch_init e a = Inr args"
    and "url args \<noteq> []"
    and "ignore_robots_txt cfg
         \<or> snd (check_may_autonomously_fetch_url e (url args) (user_agent_autonomous cfg)) = Inr ()"
    and "snd (fetch_url e (url args) (user_agent_autonomous cfg) (raw args)) = Inr (content, prefix)"
  shows "snd (call_tool e cfg name a) =
     Inr [\<lparr>tc_type = ''text'',
           tc_text = prefix @ ''Contents of '' @ url args @ '':'' @ nl
                       @ fst (window content (start_index args) (max_length args))\<rparr>]"
  using assms
  by (auto simp add: call_tool_def Let_def split: prod.splits sum.splits)

lemma ex_call_tool_at_end:
  "snd (call_tool (ex_env 200) (ex_cfg None) ''fetch'' (ex_args ex_page_url 11)) =
     Inr [\<lparr>tc_type = ''text'',
           tc_text = ''Contents of http://example.com/page:'' @ nl @ no_more_content\<rparr>]"
proof -
  have f: "Fetch_init (ex_env 200) (ex_args ex_page_url 11)
      = Inr \<lparr>url = ex_page_url, max_length = 5000, start_index = 11, raw = False\<rparr>"
    by (rule ex_Fetch_init) (simp_all add: ex_page_url_def)
  have n: "\<not> ignore_robots_txt (ex_cfg None)" by (simp add: ex_cfg_def)
  have w: "window ''Hello world'' 11 5000 = (no_more_content, None)"
    by (simp add: window_cases)
  show ?thesis
    unfolding call_tool_def f using n
    by (simp add: Let_def ex_check_page ex_fetch_page w) (simp add: ex_page_url_def)
qed

text \<open>
  Claim C6 as stated fails: with a fetched content of 11 characters and \<open>start_index = 11\<close>
  the payload is not the bare text \<open><error>No more content available.</error>\<close>.
\<close>

theorem call_tool_payload_not_bare_sentinel:
  "snd (fetch_url (ex_env 200) ex_page_url (user_agent_autonomous (ex_cfg None)) False)
      = Inr (''Hello world'', '''')
   \<and> int (length ''Hello world'') = 11
   \<and> snd (call_tool (ex_env 200) (ex_cfg None) ''fetch'' (ex_args ex_page_url 11))
      \<noteq> Inr [\<lparr>tc_type = ''text'', tc_text = no_more_content\<rparr>]"
proof -
  have a: "snd (fetch_url (ex_env 200) ex_page_url (user_agent_autonomous (ex_cfg None)) False)
      = Inr (''Hello world'', '''')"
    by (simp add: ex_fetch_page)
  have c: "snd (call_tool (ex_env 200) (ex_cfg None) ''fetch'' (ex_args ex_page_url 11))
      \<noteq> Inr [\<lparr>tc_type = ''text'', tc_text = no_more_content\<rparr>]"
    by (simp add: ex_call_tool_at_end no_more_content_def)
  from a c show ?thesis by simp
qed

text \<open>
  Claim C6, as amended. Every successful return of the tool handler is one text payload
  \<open>{prefix}Contents of {url}:\n{content}\<close>, where \<open>content\<close> is the windowed content. For a
  request whose \<open>start_index\<close> equals the length of the fetched content the windowed content
  is \<open><error>No more content available.</error>\<close>, so the payload is
  \<open>{prefix}Contents of {url}:\n<error>No more content available.</error>\<close>.
\<close>

theorem call_tool_payload_wraps_sentinel:
  assumes "Fetch_init e a = Inr args"
    and "url args \<noteq> []"
    and "ignore_robots_txt cfg
         \<or> snd (check_may_autonomously_fetch_url e (url args) (user_agent_autonomous cfg)) = Inr ()"
    and "snd (fetch_url e (url args) (user_agent_autonomous cfg) (raw args)) = Inr (content, prefix)"
  shows "snd (call_tool e cfg name a) =
           Inr [\<lparr>tc_type = ''text'',
                 tc_text = prefix @ ''Contents of '' @ url args @ '':'' @ nl
                             @ fst (window content (start_index args) (max_length args))\<rparr>]
       \<and> (start_index args = int (length content) \<longrightarrow>
            snd (call_tool e cfg name a) =
              Inr [\<lparr>tc_type = ''text'',
                    tc_text = prefix @ ''Contents of '' @ url args @ '':'' @ nl
                                @ no_more_content\<rparr>])"
proof -
  note p = call_tool_success [OF assms, of name]
  have "start_index args = int (length content) \<Longrightarrow>
          fst (window content (start_index args) (max_length args)) = no_more_content"
    by (simp add: window_cases)
  with p show ?thesis by simp
qed

theorem call_tool_payload_wraps_sentinel_witness:
  "snd (call_tool (ex_env 200) (ex_cfg None) ''fetch'' (ex_args ex_page_url 11)) =
     Inr [\<lparr>tc_type = ''text'',
           tc_text = ''Contents of http://example.com/page:'' @ nl @ no_more_content\<rparr>]"
proof -
  let ?args = "\<lparr>url = ex_page_url, max_length = 5000, start_index = 11, raw = False\<rparr>"
  have f: "Fetch_init (ex_env 200) (ex_args ex_page_url 11) = Inr ?args"
    by (rule ex_Fetch_init) (simp_all add: ex_page_url_def)
  have u: "url ?args \<noteq> []" by (simp add: ex_page_url_def)
  have r: "ignore_robots_txt (ex_cfg None)
         \<or> snd (check_may_autonomously_fetch_url (ex_env 200) (url ?args)
                  (user_agent_autonomous (ex_cfg None))) = Inr ()"
    by (simp add: ex_check_page)
  have p: "snd (fetch_url (ex_env 200) (url ?args) (user_agent_autonomous (ex_cfg None)) (raw ?args))
             = Inr (''Hello world'', '''')"
    by (simp add: ex_fetch_page)
  have s: "start_index ?args = int (length ''Hello world'')" by simp
  note t = call_tool_payload_wraps_sentinel [OF f u r p, of "''fetch''"]
  from t s
  have "snd (call_tool (ex_env 200) (ex_cfg None) ''fetch'' (ex_args ex_page_url 11)) =
          Inr [\<lparr>tc_type = ''text'',
                tc_text = '''' @ ''Contents of '' @ url ?args @ '':'' @ nl @ no_more_content\<rparr>]"
    by blast
  then show ?thesis
    by (simp add: ex_page_url_def)
qed

section \<open>User agents\<close>

lemma defaults_differ: "DEFAULT_USER_AGENT_AUTONOMOUS \<noteq> DEFAULT_USER_AGENT_MANUAL"
  by (simp add: DEFAULT_USER_AGENT_AUTONOMOUS_def DEFAULT_USER_AGENT_MANUAL_def)

lemma fetch_url_requests:
  "fst (fetch_url e u ua fr) =
     [\<lparr>req_url = u, follow_redirects = True, req_headers = [(''User-Agent'', ua)], timeout = Some 30\<rparr>]"
  by (simp add: fetch_url_def Let_def)

lemma check_requests:
  "fst (check_may_autonomously_fetch_url e u ua) =
     [\<lparr>req_url = get_robots_txt_url e u, follow_redirects = True,
       req_headers = [(''User-Agent'', ua)], timeout = None\<rparr>]"
  by (simp add: check_may_autonomously_fetch_url_def Let_def)

lemma call_tool_requests:
  "r \<in> set (fst (call_tool e cfg name a)) \<Longrightarrow> req_headers r = [(''User-Agent'', user_agent_autonomous cfg)]"
proof -
  assume r: "r \<in> set (fst (call_tool e cfg name a))"
  have "set (fst (call_tool e cfg name a))
          \<subseteq> set (fst (check_may_autonomously_fetch_url e (case Fetch_init e a of Inr args \<Rightarrow> url args | Inl _ \<Rightarrow> []) (user_agent_autonomous cfg)))
            \<union> set (fst (fetch_url e (case Fetch_init e a of Inr args \<Rightarrow> url args | Inl _ \<Rightarrow> []) (user_agent_autonomous cfg) (case Fetch_init e a of Inr args \<Rightarrow> raw args | Inl _ \<Rightarrow> False)))"
    by (auto simp add: call_tool_def Let_def split: sum.splits prod.splits if_splits)
  with r show ?thesis
    by (auto simp add: fetch_url_requests check_requests)
qed

lemma get_prompt_requests:
  "r \<in> set (fst (get_prompt e cfg name args)) \<Longrightarrow> req_headers r = [(''User-Agent'', user_agent_manual cfg)]"
proof -
  assume r: "r \<in> set (fst (get_prompt e cfg name args))"
  have "set (fst (get_prompt e cfg name args))
          \<subseteq> set (fst (fetch_url e (case (case args of None \<Rightarrow> None | Some d \<Rightarrow> d ''url'') of Some u \<Rightarrow> u | None \<Rightarrow> []) (user_agent_manual cfg) False))"
    by (auto simp add: get_prompt_def Let_def split: sum.splits prod.splits option.splits)
  with r show ?thesis
    by (auto simp add: fetch_url_requests)
qed

lemma ex_call_tool_requests:
  "fst (call_tool (ex_env 200) (ex_cfg c) name (ex_args ex_page_url 0)) =
     [\<lparr>req_url = ''http://example.com/robots.txt'', follow_redirects = True,
        req_headers = [(''User-Agent'', user_agent_autonomous (ex_cfg c))], timeout = None\<rparr>,
      \<lparr>req_url = ''http://example.com/page'', follow_redirects = True,
        req_headers = [(''User-Agent'', user_agent_autonomous (ex_cfg c))], timeout = Some 30\<rparr>]"
proof -
  have f: "Fetch_init (ex_env 200) (ex_args ex_page_url 0)
      = Inr \<lparr>url = ex_page_url, max_length = 5000, start_index = 0, raw = False\<rparr>"
    by (rule ex_Fetch_init) (simp_all add: ex_page_url_def)
  have n: "\<not> ignore_robots_txt (ex_cfg c)" by (simp add: ex_cfg_def)
  show ?thesis
    unfolding call_tool_def f using n
    by (simp add: Let_def ex_check_page ex_fetch_page) (simp add: ex_page_url_def)
qed

lemma ex_get_prompt_requests:
  "fst (get_prompt (ex_env 200) (ex_cfg c) name (Some [''url'' \<mapsto> ex_page_url])) =
     [\<lparr>req_url = ''http://example.com/page'', follow_redirects = True,
        req_headers = [(''User-Agent'', user_agent_manual (ex_cfg c))], timeout = Some 30\<rparr>]"
  by (simp add: get_prompt_def Let_def ex_fetch_page)

text \<open>
  Claim C10. With a non-empty custom user agent, every request sent by the tool handler
  and every request sent by the prompt handler carries that one string as its
  \<open>User-Agent\<close>. With no custom user agent the tool handler sends the autonomous default
  and the prompt handler the manual default, which differ. The two resolved user agents
  coincide exactly when a non-empty custom user agent is configured.
\<close>

theorem user_agent_override_shared:
  "(\<forall>ua. custom_user_agent cfg = Some ua \<and> ua \<noteq> [] \<longrightarrow>
       (\<forall>r \<in> set (fst (call_tool e cfg name a)). req_headers r = [(''User-Agent'', ua)])
     \<and> (\<forall>r \<in> set (fst (get_prompt e cfg name' args)). req_headers r = [(''User-Agent'', ua)]))
   \<and> (custom_user_agent cfg = None \<longrightarrow>
       (\<forall>r \<in> set (fst (call_tool e cfg name a)).
            req_headers r = [(''User-Agent'', DEFAULT_USER_AGENT_AUTONOMOUS)])
     \<and> (\<forall>r \<in> set (fst (get_prompt e cfg name' args)).
            req_headers r = [(''User-Agent'', DEFAULT_USER_AGENT_MANUAL)]))
   \<and> DEFAULT_USER_AGENT_AUTONOMOUS \<noteq> DEFAULT_USER_AGENT_MANUAL
   \<and> (user_agent_autonomous cfg = user_agent_manual cfg
        \<longleftrightarrow> (\<exists>ua. custom_user_agent cfg = Some ua \<and> ua \<noteq> []))"
proof -
  have a: "\<forall>ua. custom_user_agent cfg = Some ua \<and> ua \<noteq> [] \<longrightarrow>
       (\<forall>r \<in> set (fst (call_tool e cfg name a)). req_headers r = [(''User-Agent'', ua)])
     \<and> (\<forall>r \<in> set (fst (get_prompt e cfg name' args)). req_headers r = [(''User-Agent'', ua)])"
  proof (intro allI impI)
    fix ua assume h: "custom_user_agent cfg = Some ua \<and> ua \<noteq> []"
    then have "user_agent_autonomous cfg = ua" "user_agent_manual cfg = ua"
      by (simp_all add: user_agent_autonomous_def user_agent_manual_def py_or_def)
    then show "(\<forall>r \<in> set (fst (call_tool e cfg name a)). req_headers r = [(''User-Agent'', ua)])
     \<and> (\<forall>r \<in> set (fst (get_prompt e cfg name' args)). req_headers r = [(''User-Agent'', ua)])"
      using call_tool_requests [of _ e cfg name a] get_prompt_requests [of _ e cfg name' args]
      by auto
  qed
  have b: "custom_user_agent cfg = None \<longrightarrow>
       (\<forall>r \<in> set (fst (call_tool e cfg name a)).
            req_headers r = [(''User-Agent'', DEFAULT_USER_AGENT_AUTONOMOUS)])
     \<and> (\<forall>r \<in> set (fst (get_prompt e cfg name' args)).
            req_headers r = [(''User-Agent'', DEFAULT_USER_AGENT_MANUAL)])"
  proof
    assume h: "custom_user_agent cfg = None"
    then have "user_agent_autonomous cfg = DEFAULT_USER_AGENT_AUTONOMOUS"
       "user_agent_manual cfg = DEFAULT_USER_AGENT_MANUAL"
      by (simp_all add: user_agent_autonomous_def user_agent_manual_def py_or_def)
    then show "(\<forall>r \<in> set (fst (call_tool e cfg name a)).
            req_headers r = [(''User-Agent'', DEFAULT_USER_AGENT_AUTONOMOUS)])
     \<and> (\<forall>r \<in> set (fst (get_prompt e cfg name' args)).
            req_headers r = [(''User-Agent'', DEFAULT_USER_AGENT_MANUAL)])"
      using call_tool_requests [of _ e cfg name a] get_prompt_requests [of _ e cfg name' args]
      by auto
  qed
  have c: "user_agent_autonomous cfg = user_agent_manual cfg
        \<longleftrightarrow> (\<exists>ua. custom_user_agent cfg = Some ua \<and> ua \<noteq> [])"
    using defaults_differ
    by (auto simp add: user_agent_autonomous_def user_agent_manual_def py_or_def split: option.splits)
  from a b c defaults_differ show ?thesis by blast
qed

theorem user_agent_override_shared_witness:
  "map req_headers (fst (call_tool (ex_env 200) (ex_cfg (Some ''ExampleBot/1.0'')) ''fetch''
                            (ex_args ex_page_url 0)))
      = [[(''User-Agent'', ''ExampleBot/1.0'')], [(''User-Agent'', ''ExampleBot/1.0'')]]
   \<and> map req_headers (fst (get_prompt (ex_env 200) (ex_cfg (Some ''ExampleBot/1.0'')) ''fetch''
                              (Some [''url'' \<mapsto> ex_page_url])))
      = [[(''User-Agent'', ''ExampleBot/1.0'')]]
   \<and> map req_headers (fst (call_tool (ex_env 200) (ex_cfg None) ''fetch'' (ex_args ex_page_url 0)))
      = [[(''User-Agent'', DEFAULT_USER_AGENT_AUTONOMOUS)],
         [(''User-Agent'', DEFAULT_USER_AGENT_AUTONOMOUS)]]
   \<and> map req_headers (fst (get_prompt (ex_env 200) (ex_cfg None) ''fetch''
                              (Some [''url'' \<mapsto> ex_page_url])))
      = [[(''User-Agent'', DEFAULT_USER_AGENT_MANUAL)]]"
proof -
  have c1: "custom_user_agent (ex_cfg (Some ''ExampleBot/1.0'')) = Some ''ExampleBot/1.0''
            \<and> ''ExampleBot/1.0'' \<noteq> []"
    by (simp add: ex_cfg_def)
  have c2: "custom_user_agent (ex_cfg None) = None"
    by (simp add: ex_cfg_def)
  have l1: "\<And>c. \<exists>r1 r2. fst (call_tool (ex_env 200) (ex_cfg c) ''fetch'' (ex_args ex_page_url 0)) = [r1, r2]"
    by (simp add: ex_call_tool_requests)
  have l2: "\<And>c. \<exists>r1. fst (get_prompt (ex_env 200) (ex_cfg c) ''fetch'' (Some [''url'' \<mapsto> ex_page_url])) = [r1]"
    by (simp add: ex_get_prompt_requests)
  note t1 = user_agent_override_shared [of "ex_cfg (Some ''ExampleBot/1.0'')" "ex_env 200" "''fetch''" "ex_args ex_page_url 0"
                     "''fetch''" "Some [''url'' \<mapsto> ex_page_url]"]
  note t2 = user_agent_override_shared [of "ex_cfg None" "ex_env 200" "''fetch''" "ex_args ex_page_url 0"
                     "''fetch''" "Some [''url'' \<mapsto> ex_page_url]"]
  have a: "map req_headers (fst (call_tool (ex_env 200) (ex_cfg (Some ''ExampleBot/1.0'')) ''fetch''
                            (ex_args ex_page_url 0)))
      = [[(''User-Agent'', ''ExampleBot/1.0'')], [(''User-Agent'', ''ExampleBot/1.0'')]]"
    using t1 c1 l1 [of "Some ''ExampleBot/1.0''"] by auto
  have b: "map req_headers (fst (get_prompt (ex_env 200) (ex_cfg (Some ''ExampleBot/1.0'')) ''fetch''
                              (Some [''url'' \<mapsto> ex_page_url])))
      = [[(''User-Agent'', ''ExampleBot/1.0'')]]"
    using t1 c1 l2 [of "Some ''ExampleBot/1.0''"] by auto
  have c: "map req_headers (fst (call_tool (ex_env 200) (ex_cfg None) ''fetch'' (ex_args ex_page_url 0)))
      = [[(''User-Agent'', DEFAULT_USER_AGENT_AUTONOMOUS)],
         [(''User-Agent'', DEFAULT_USER_AGENT_AUTONOMOUS)]]"
    using t2 c2 l1 [of None] by auto
  have d: "map req_headers (fst (get_prompt (ex_env 200) (ex_cfg None) ''fetch''
                              (Some [''url'' \<mapsto> ex_page_url])))
      = [[(''User-Agent'', DEFAULT_USER_AGENT_MANUAL)]]"
    using t2 c2 l2 [of None] by auto
  from a b c d show ?thesis by blast
qed

end
